theory Spec2Isabelle
  imports Main
begin

section \<open>The endpoint state machine of pyngus/endpoint.py\<close>

text \<open>
  The class \<^verbatim>\<open>Endpoint\<close> keeps one integer state per instance and moves it along a
  table indexed by state and event. States and events are plain Python integers, so
  they are integers here too; a state outside the table's keys raises \<^verbatim>\<open>KeyError\<close> and
  an event outside \<^verbatim>\<open>EVENT_NAMES\<close> raises \<^verbatim>\<open>IndexError\<close>, and both are branches of the
  model.
\<close>

subsection \<open>Constants\<close>

definition STATE_UNINIT :: int where "STATE_UNINIT = 0"
definition STATE_PENDING :: int where "STATE_PENDING = 1"
definition STATE_REQUESTED :: int where "STATE_REQUESTED = 2"
definition STATE_CANCELLED :: int where "STATE_CANCELLED = 3"
definition STATE_ABANDONED :: int where "STATE_ABANDONED = 4"
definition STATE_ACTIVE :: int where "STATE_ACTIVE = 5"
definition STATE_NEED_CLOSE :: int where "STATE_NEED_CLOSE = 6"
definition STATE_CLOSING :: int where "STATE_CLOSING = 7"
definition STATE_CLOSED :: int where "STATE_CLOSED = 8"
definition STATE_ERROR :: int where "STATE_ERROR = 9"

definition STATE_NAMES :: "string list" where
  "STATE_NAMES = [''STATE_UNINIT'', ''STATE_PENDING'', ''STATE_REQUESTED'',
                  ''STATE_CANCELLED'', ''STATE_ABANDONED'', ''STATE_ACTIVE'',
                  ''STATE_NEED_CLOSE'', ''STATE_CLOSING'', ''STATE_CLOSED'',
                  ''STATE_ERROR'']"

definition LOCAL_OPENED :: int where "LOCAL_OPENED = 0"
definition LOCAL_CLOSED :: int where "LOCAL_CLOSED = 1"
definition REMOTE_OPENED :: int where "REMOTE_OPENED = 2"
definition REMOTE_CLOSED :: int where "REMOTE_CLOSED = 3"

definition EVENT_NAMES :: "string list" where
  "EVENT_NAMES = [''LOCAL_OPENED'', ''LOCAL_CLOSED'',
                  ''REMOTE_OPENED'', ''REMOTE_CLOSED'']"

text \<open>The ten enumerated states and the four enumerated events, in the order of the source.\<close>

definition ALL_STATES :: "int list" where
  "ALL_STATES = [STATE_UNINIT, STATE_PENDING, STATE_REQUESTED, STATE_CANCELLED,
                 STATE_ABANDONED, STATE_ACTIVE, STATE_NEED_CLOSE, STATE_CLOSING,
                 STATE_CLOSED, STATE_ERROR]"

definition ALL_EVENTS :: "int list" where
  "ALL_EVENTS = [LOCAL_OPENED, LOCAL_CLOSED, REMOTE_OPENED, REMOTE_CLOSED]"

subsection \<open>Python values: exceptions, list indexing, log records\<close>

datatype exn = IndexError | KeyError | AttributeError | OtherError string

text \<open>
  A call either returns or raises. Python keeps every mutation made before the raise, so
  a raise carries the state reached, too.
\<close>

datatype 'a outcome = Returned (world_of: 'a) | Raised (raised: exn) (world_of: 'a)

text \<open>\<^verbatim>\<open>xs[i]\<close>: a negative index counts from the end; \<open>None\<close> stands for \<^verbatim>\<open>IndexError\<close>.\<close>

definition py_index :: "'a list \<Rightarrow> int \<Rightarrow> 'a option" where
  "py_index xs i =
     (let n = int (length xs); j = (if i < 0 then n + i else i)
      in if 0 \<le> j \<and> j < n then Some (xs ! nat j) else None)"

datatype level = DEBUG | ERROR

text \<open>A log record: level, format string, arguments (formatting is left to the logger).\<close>

type_synonym log_record = "level \<times> string \<times> string list"

subsection \<open>The instance\<close>

text \<open>
  \<^verbatim>\<open>_remote_events\<close> and \<^verbatim>\<open>_local_events\<close> exist only when the constructor ran under an
  old Proton version; \<open>None\<close> is the absent attribute. Fields added by a subclass live in
  the record's extension.
\<close>

record endpoint =
  name :: string
  state :: int
  remote_events :: "int list option"
  local_events :: "int list option"

text \<open>What a method works on: the instance and the lines logged so far.\<close>

type_synonym 'm world = "'m endpoint_scheme \<times> log_record list"

text \<open>
  The five methods a subclass overrides. The fifth takes the error message.
\<close>

record 'm hooks =
  ep_requested :: "'m world \<Rightarrow> 'm world outcome"
  ep_active :: "'m world \<Rightarrow> 'm world outcome"
  ep_need_close :: "'m world \<Rightarrow> 'm world outcome"
  ep_closed :: "'m world \<Rightarrow> 'm world outcome"
  ep_error :: "string \<Rightarrow> 'm world \<Rightarrow> 'm world outcome"

text \<open>The methods of \<^verbatim>\<open>Endpoint\<close> itself: each logs one line and touches nothing else.\<close>

definition log_requested :: log_record where
  "log_requested = (DEBUG, ''endpoint_requested - ignored'', [])"
definition log_active :: log_record where
  "log_active = (DEBUG, ''endpoint_active - ignored'', [])"
definition log_need_close :: log_record where
  "log_need_close = (DEBUG, ''endpoint_need_close - ignored'', [])"
definition log_closed :: log_record where
  "log_closed = (DEBUG, ''endpoint_closed - ignored'', [])"
definition log_error :: "string \<Rightarrow> string \<Rightarrow> log_record" where
  "log_error nm err = (ERROR, ''Endpoint state error: endpoint=%s, error=%s'', [nm, err])"

definition default_hooks :: "'m hooks" where
  "default_hooks =
     \<lparr> ep_requested = (\<lambda>(self, lg). Returned (self, lg @ [log_requested])),
       ep_active = (\<lambda>(self, lg). Returned (self, lg @ [log_active])),
       ep_need_close = (\<lambda>(self, lg). Returned (self, lg @ [log_need_close])),
       ep_closed = (\<lambda>(self, lg). Returned (self, lg @ [log_closed])),
       ep_error = (\<lambda>error (self, lg). Returned (self, lg @ [log_error (name self) error])) \<rparr>"

subsection \<open>The transition table\<close>

text \<open>
  An entry's action is one of four lambdas, each calling one method of the instance.
\<close>

datatype action = Call_ep_requested | Call_ep_active | Call_ep_need_close | Call_ep_closed

fun call :: "action \<Rightarrow> 'm hooks \<Rightarrow> 'm world \<Rightarrow> 'm world outcome" where
  "call Call_ep_requested h w = ep_requested h w"
| "call Call_ep_active h w = ep_active h w"
| "call Call_ep_need_close h w = ep_need_close h w"
| "call Call_ep_closed h w = ep_closed h w"

definition FSM :: "int \<rightharpoonup> (int \<rightharpoonup> int \<times> action option)" where
  "FSM = map_of
     [(STATE_UNINIT, map_of
         [(LOCAL_OPENED, (STATE_PENDING, None)),
          (REMOTE_OPENED, (STATE_REQUESTED, Some Call_ep_requested))]),
      (STATE_PENDING, map_of
         [(LOCAL_CLOSED, (STATE_CANCELLED, None)),
          (REMOTE_OPENED, (STATE_ACTIVE, Some Call_ep_active))]),
      (STATE_REQUESTED, map_of
         [(LOCAL_OPENED, (STATE_ACTIVE, Some Call_ep_active)),
          (REMOTE_CLOSED, (STATE_ABANDONED, None))]),
      (STATE_CANCELLED, map_of
         [(REMOTE_OPENED, (STATE_CLOSING, None))]),
      (STATE_ABANDONED, map_of
         [(LOCAL_OPENED, (STATE_NEED_CLOSE, Some Call_ep_need_close)),
          (LOCAL_CLOSED, (STATE_CLOSED, Some Call_ep_closed))]),
      (STATE_ACTIVE, map_of
         [(LOCAL_CLOSED, (STATE_CLOSING, None)),
          (REMOTE_CLOSED, (STATE_NEED_CLOSE, Some Call_ep_need_close))]),
      (STATE_NEED_CLOSE, map_of
         [(LOCAL_CLOSED, (STATE_CLOSED, Some Call_ep_closed))]),
      (STATE_CLOSING, map_of
         [(REMOTE_CLOSED, (STATE_CLOSED, Some Call_ep_closed))]),
      (STATE_CLOSED, map_of
         [(REMOTE_CLOSED, (STATE_CLOSED, None))]),
      (STATE_ERROR, map_of
         [(LOCAL_OPENED, (STATE_ERROR, None)),
          (LOCAL_CLOSED, (STATE_ERROR, None)),
          (REMOTE_OPENED, (STATE_ERROR, None)),
          (REMOTE_CLOSED, (STATE_ERROR, None))])]"

subsection \<open>Construction\<close>

text \<open>
  \<^verbatim>\<open>_PROTON_VERSION\<close> is read from the installed Proton library, so it is a parameter.
  Python compares the pair with \<^verbatim>\<open>(0, 8)\<close> lexicographically.
\<close>

definition old_proton :: "int \<times> int \<Rightarrow> bool" where
  "old_proton pv = (fst pv < 0 \<or> (fst pv = 0 \<and> snd pv < 8))"

definition init :: "int \<times> int \<Rightarrow> string \<Rightarrow> 'm \<Rightarrow> 'm endpoint_scheme" where
  "init pv nm m =
     \<lparr> name = nm, state = STATE_UNINIT,
       remote_events = (if old_proton pv then Some [REMOTE_OPENED, REMOTE_CLOSED] else None),
       local_events = (if old_proton pv then Some [LOCAL_OPENED, LOCAL_CLOSED] else None),
       \<dots> = m \<rparr>"

subsection \<open>Dispatch\<close>

definition log_event :: "string \<Rightarrow> string \<Rightarrow> log_record" where
  "log_event nm ev = (DEBUG, ''Endpoint %s event: %s'', [nm, ev])"

definition log_transition :: "string \<Rightarrow> string \<Rightarrow> string \<Rightarrow> log_record" where
  "log_transition nm old new =
     (DEBUG, ''Endpoint %s Old State: %s New State: %s'', [nm, old, new])"

definition error_message :: "string \<Rightarrow> string \<Rightarrow> string" where
  "error_message ev st = ''invalid event='' @ ev @ '' in state='' @ st"

definition process_endpoint_event ::
  "'m hooks \<Rightarrow> int \<Rightarrow> 'm world \<Rightarrow> 'm world outcome" where
  "process_endpoint_event h event w =
     (case w of (self, lg) \<Rightarrow>
      (case py_index EVENT_NAMES event of
         None \<Rightarrow> Raised IndexError (self, lg)
       | Some ev \<Rightarrow>
          (let lg1 = lg @ [log_event (name self) ev] in
           (case FSM (state self) of
              None \<Rightarrow> Raised KeyError (self, lg1)
            | Some state_fsm \<Rightarrow>
               (case state_fsm event of
                  None \<Rightarrow>
                    (let old_state = state self;
                         self1 = self\<lparr>state := STATE_ERROR\<rparr>
                     in (case py_index STATE_NAMES old_state of
                           None \<Rightarrow> Raised IndexError (self1, lg1)
                         | Some st \<Rightarrow> ep_error h (error_message ev st) (self1, lg1)))
                | Some entry \<Rightarrow>
                    (case py_index STATE_NAMES (state self) of
                       None \<Rightarrow> Raised IndexError (self, lg1)
                     | Some old \<Rightarrow>
                        (case py_index STATE_NAMES (fst entry) of
                           None \<Rightarrow> Raised IndexError (self, lg1)
                         | Some new \<Rightarrow>
                            (let lg2 = lg1 @ [log_transition (name self) old new];
                                 self1 = self\<lparr>state := fst entry\<rparr>
                             in (case snd entry of
                                   None \<Rightarrow> Returned (self1, lg2)
                                 | Some act \<Rightarrow> call act h (self1, lg2))))))))))"

subsection \<open>The shim for Proton versions before 0.8\<close>

text \<open>
  The two methods below are defined only under an old Proton version; calling a method
  that the class does not have raises \<^verbatim>\<open>AttributeError\<close>, as reading an absent attribute
  does. The \<^verbatim>\<open>try\<close> block covers the dispatch as well as the \<^verbatim>\<open>pop\<close>, so an
  \<^verbatim>\<open>IndexError\<close> raised anywhere below it is swallowed and logged.
\<close>

definition log_ignored_remote :: "string \<Rightarrow> log_record" where
  "log_ignored_remote nm = (DEBUG, ''Endpoint %s: ignoring unexpected remote event'', [nm])"

definition log_ignored_local :: "string \<Rightarrow> log_record" where
  "log_ignored_local nm = (DEBUG, ''Endpoint %s: ignoring unexpected local event'', [nm])"

definition process_remote_state ::
  "int \<times> int \<Rightarrow> 'm hooks \<Rightarrow> 'm world \<Rightarrow> 'm world outcome" where
  "process_remote_state pv h w =
     (case w of (self, lg) \<Rightarrow>
        if \<not> old_proton pv then Raised AttributeError (self, lg)
        else (case remote_events self of
                None \<Rightarrow> Raised AttributeError (self, lg)
              | Some [] \<Rightarrow> Returned (self, lg @ [log_ignored_remote (name self)])
              | Some (event # rest) \<Rightarrow>
                 (case process_endpoint_event h event
                         (self\<lparr>remote_events := Some rest\<rparr>, lg) of
                    Returned w1 \<Rightarrow> Returned w1
                  | Raised x w1 \<Rightarrow>
                     if x = IndexError
                     then Returned (fst w1, snd w1 @ [log_ignored_remote (name (fst w1))])
                     else Raised x w1)))"

definition process_local_state ::
  "int \<times> int \<Rightarrow> 'm hooks \<Rightarrow> 'm world \<Rightarrow> 'm world outcome" where
  "process_local_state pv h w =
     (case w of (self, lg) \<Rightarrow>
        if \<not> old_proton pv then Raised AttributeError (self, lg)
        else (case local_events self of
                None \<Rightarrow> Raised AttributeError (self, lg)
              | Some [] \<Rightarrow> Returned (self, lg @ [log_ignored_local (name self)])
              | Some (event # rest) \<Rightarrow>
                 (case process_endpoint_event h event
                         (self\<lparr>local_events := Some rest\<rparr>, lg) of
                    Returned w1 \<Rightarrow> Returned w1
                  | Raised x w1 \<Rightarrow>
                     if x = IndexError
                     then Returned (fst w1, snd w1 @ [log_ignored_local (name (fst w1))])
                     else Raised x w1)))"

subsection \<open>Drivers: the engine delivering one event after another\<close>

text \<open>
  The Proton engine calls the dispatch once per event; an exception leaves the sequence.
  \<open>visited\<close> lists the state found after each dispatch.
\<close>

fun run :: "'m hooks \<Rightarrow> int list \<Rightarrow> 'm world \<Rightarrow> 'm world outcome" where
  "run h [] w = Returned w"
| "run h (event # events) w =
     (case process_endpoint_event h event w of
        Returned w1 \<Rightarrow> run h events w1
      | Raised x w1 \<Rightarrow> Raised x w1)"

fun visited :: "'m hooks \<Rightarrow> int list \<Rightarrow> 'm world \<Rightarrow> int list" where
  "visited h [] w = []"
| "visited h (event # events) w =
     (case process_endpoint_event h event w of
        Returned w1 \<Rightarrow> state (fst w1) # visited h events w1
      | Raised x w1 \<Rightarrow> [state (fst w1)])"

text \<open>An old engine only says which side changed.\<close>

datatype change = Local_changed | Remote_changed

fun notify :: "int \<times> int \<Rightarrow> 'm hooks \<Rightarrow> change \<Rightarrow> 'm world \<Rightarrow> 'm world outcome" where
  "notify pv h Local_changed w = process_local_state pv h w"
| "notify pv h Remote_changed w = process_remote_state pv h w"

fun deliver :: "int \<times> int \<Rightarrow> 'm hooks \<Rightarrow> change list \<Rightarrow> 'm world \<Rightarrow> 'm world outcome" where
  "deliver pv h [] w = Returned w"
| "deliver pv h (c # cs) w =
     (case notify pv h c w of
        Returned w1 \<Rightarrow> deliver pv h cs w1
      | Raised x w1 \<Rightarrow> Raised x w1)"

text \<open>
  The lines that the methods of \<^verbatim>\<open>Endpoint\<close> write when they are called: with the
  default methods, the calls made are read off the log.
\<close>

definition hook_lines :: "log_record list \<Rightarrow> log_record list" where
  "hook_lines lg =
     filter (\<lambda>r. r \<in> set [log_requested, log_active, log_need_close, log_closed]
                  \<or> fst r = ERROR) lg"

subsection \<open>The shim as the specification words it\<close>

text \<open>
  The specification's reading of undifferentiated notifications: on each side the first
  one means Opened, the second one means Closed, and any later one is discarded. The two
  counters are the numbers of local and remote notifications seen so far.
\<close>

fun spec_inferred_events :: "nat \<Rightarrow> nat \<Rightarrow> change list \<Rightarrow> int list" where
  "spec_inferred_events nl nr [] = []"
| "spec_inferred_events nl nr (Local_changed # cs) =
     (if nl = 0 then [LOCAL_OPENED] else if nl = 1 then [LOCAL_CLOSED] else [])
       @ spec_inferred_events (Suc nl) nr cs"
| "spec_inferred_events nl nr (Remote_changed # cs) =
     (if nr = 0 then [REMOTE_OPENED] else if nr = 1 then [REMOTE_CLOSED] else [])
       @ spec_inferred_events nl (Suc nr) cs"

subsection \<open>Instances used as concrete inputs\<close>

definition closed_link :: endpoint where
  "closed_link = \<lparr> name = ''link'', state = STATE_CLOSED,
                    remote_events = None, local_events = None \<rparr>"

definition pending_link :: endpoint where
  "pending_link = \<lparr> name = ''link'', state = STATE_PENDING,
                     remote_events = None, local_events = None \<rparr>"

definition failed_link :: endpoint where
  "failed_link = \<lparr> name = ''link'', state = STATE_ERROR,
                    remote_events = None, local_events = None \<rparr>"

definition cancelled_link :: endpoint where
  "cancelled_link = \<lparr> name = ''link'', state = STATE_CANCELLED,
                       remote_events = None, local_events = None \<rparr>"

definition active_link :: endpoint where
  "active_link = \<lparr> name = ''link'', state = STATE_ACTIVE,
                    remote_events = None, local_events = None \<rparr>"

definition exhausted_link :: endpoint where
  "exhausted_link = \<lparr> name = ''link'', state = STATE_ABANDONED,
                       remote_events = Some [], local_events = Some [LOCAL_OPENED, LOCAL_CLOSED] \<rparr>"

text \<open>
  A subclass whose \<^verbatim>\<open>_ep_active\<close> writes down the state it finds on the instance.
\<close>

definition observing_hooks :: "unit hooks" where
  "observing_hooks =
     default_hooks
       \<lparr> ep_active := (\<lambda>(self, lg).
            Returned (self, lg @ [(DEBUG, ''observed state %s'', [STATE_NAMES ! nat (state self)])])) \<rparr>"

section \<open>Facts about the table\<close>

lemmas state_defs =
  STATE_UNINIT_def STATE_PENDING_def STATE_REQUESTED_def STATE_CANCELLED_def
  STATE_ABANDONED_def STATE_ACTIVE_def STATE_NEED_CLOSE_def STATE_CLOSING_def
  STATE_CLOSED_def STATE_ERROR_def

lemmas event_defs =
  LOCAL_OPENED_def LOCAL_CLOSED_def REMOTE_OPENED_def REMOTE_CLOSED_def

lemma in_ALL_STATES: "s \<in> set ALL_STATES \<longleftrightarrow> 0 \<le> s \<and> s \<le> 9"
  unfolding ALL_STATES_def state_defs by (simp, arith)

lemma in_ALL_EVENTS: "e \<in> set ALL_EVENTS \<longleftrightarrow> 0 \<le> e \<and> e \<le> 3"
  unfolding ALL_EVENTS_def event_defs by (simp, arith)

lemma py_index_EVENT_NAMES:
  "e \<in> set ALL_EVENTS \<Longrightarrow> py_index EVENT_NAMES e = Some (EVENT_NAMES ! nat e)"
  by (simp add: in_ALL_EVENTS py_index_def EVENT_NAMES_def)

lemma py_index_STATE_NAMES:
  "s \<in> set ALL_STATES \<Longrightarrow> py_index STATE_NAMES s = Some (STATE_NAMES ! nat s)"
  by (simp add: in_ALL_STATES py_index_def STATE_NAMES_def)

lemma FSM_dom: "FSM s = Some f \<Longrightarrow> s \<in> set ALL_STATES"
  by (auto simp: FSM_def ALL_STATES_def split: if_splits)

lemma FSM_defined: "s \<in> set ALL_STATES \<Longrightarrow> \<exists>f. FSM s = Some f"
  by (auto simp: FSM_def ALL_STATES_def state_defs)

lemma FSM_target: "FSM s = Some f \<Longrightarrow> f e = Some (ns, a) \<Longrightarrow> ns \<in> set ALL_STATES"
  by (auto simp: FSM_def ALL_STATES_def split: if_splits)

text \<open>The two branches of the dispatch, for an enumerated event.\<close>

lemma dispatch_miss:
  assumes "FSM (state self) = Some f" "f event = None" "event \<in> set ALL_EVENTS"
  shows "process_endpoint_event h event (self, lg) =
           ep_error h (error_message (EVENT_NAMES ! nat event) (STATE_NAMES ! nat (state self)))
             (self\<lparr>state := STATE_ERROR\<rparr>, lg @ [log_event (name self) (EVENT_NAMES ! nat event)])"
  using assms FSM_dom[OF assms(1)]
  by (simp add: process_endpoint_event_def py_index_EVENT_NAMES py_index_STATE_NAMES)

lemma dispatch_hit:
  assumes "FSM (state self) = Some f" "f event = Some (ns, a)" "event \<in> set ALL_EVENTS"
  shows "process_endpoint_event h event (self, lg) =
           (let w1 = (self\<lparr>state := ns\<rparr>,
                      lg @ [log_event (name self) (EVENT_NAMES ! nat event),
                            log_transition (name self) (STATE_NAMES ! nat (state self))
                              (STATE_NAMES ! nat ns)])
            in case a of None \<Rightarrow> Returned w1 | Some act \<Rightarrow> call act h w1)"
  using assms FSM_dom[OF assms(1)] FSM_target[OF assms(1,2)]
  by (simp add: process_endpoint_event_def py_index_EVENT_NAMES py_index_STATE_NAMES Let_def)

lemma default_hooks_simps:
  "ep_requested default_hooks (self, lg) = Returned (self, lg @ [log_requested])"
  "ep_active default_hooks (self, lg) = Returned (self, lg @ [log_active])"
  "ep_need_close default_hooks (self, lg) = Returned (self, lg @ [log_need_close])"
  "ep_closed default_hooks (self, lg) = Returned (self, lg @ [log_closed])"
  "ep_error default_hooks msg (self, lg) = Returned (self, lg @ [log_error (name self) msg])"
  by (simp_all add: default_hooks_def)

lemma FSM_no_error_target:
  "FSM s = Some f \<Longrightarrow> f e = Some (ns, a) \<Longrightarrow> s \<noteq> STATE_ERROR \<Longrightarrow> ns \<noteq> STATE_ERROR"
  by (auto simp: FSM_def state_defs split: if_splits)

lemma call_default_state:
  "call act default_hooks (self, lg) = Returned (self, lg @ [case act of Call_ep_requested \<Rightarrow> log_requested | Call_ep_active \<Rightarrow> log_active | Call_ep_need_close \<Rightarrow> log_need_close | Call_ep_closed \<Rightarrow> log_closed])"
  by (cases act) (simp_all add: default_hooks_simps)

lemma FSM_ERROR:
  "event \<in> set ALL_EVENTS \<Longrightarrow>
     \<exists>f. FSM STATE_ERROR = Some f \<and> f event = Some (STATE_ERROR, None)"
  by (auto simp: FSM_def ALL_EVENTS_def state_defs event_defs)

lemma FSM_CLOSED:
  "\<exists>f. FSM STATE_CLOSED = Some f \<and> f REMOTE_CLOSED = Some (STATE_CLOSED, None)
       \<and> f LOCAL_OPENED = None \<and> f LOCAL_CLOSED = None \<and> f REMOTE_OPENED = None"
  by (simp add: FSM_def state_defs event_defs)

lemma state_update_same: "state self = s \<Longrightarrow> self\<lparr>state := s\<rparr> = self"
  by auto

lemma error_step:
  assumes "state self = STATE_ERROR" "event \<in> set ALL_EVENTS"
  shows "process_endpoint_event h event (self, lg) =
           Returned (self, lg @ [log_event (name self) (EVENT_NAMES ! nat event),
                                 log_transition (name self) ''STATE_ERROR'' ''STATE_ERROR''])"
proof -
  obtain f where f: "FSM (state self) = Some f" "f event = Some (STATE_ERROR, None)"
    using FSM_ERROR[OF assms(2)] assms(1) by auto
  show ?thesis
    using dispatch_hit[OF f assms(2), of h lg] assms(1)
    by (simp add: state_update_same) (simp add: STATE_ERROR_def STATE_NAMES_def)
qed

lemma closed_step:
  assumes "state self = STATE_CLOSED"
  shows "process_endpoint_event h REMOTE_CLOSED (self, lg) =
           Returned (self, lg @ [log_event (name self) ''REMOTE_CLOSED'',
                                 log_transition (name self) ''STATE_CLOSED'' ''STATE_CLOSED''])"
proof -
  obtain f where f: "FSM (state self) = Some f" "f REMOTE_CLOSED = Some (STATE_CLOSED, None)"
    using FSM_CLOSED assms(1) by auto
  have e: "REMOTE_CLOSED \<in> set ALL_EVENTS" by (simp add: ALL_EVENTS_def)
  show ?thesis
    using dispatch_hit[OF f e, of h lg] assms(1)
    by (simp add: state_update_same) (simp add: STATE_CLOSED_def REMOTE_CLOSED_def STATE_NAMES_def EVENT_NAMES_def)
qed

lemma hook_lines_debug [simp]:
  "hook_lines (lg @ [log_event a b]) = hook_lines lg"
  "hook_lines (lg @ [log_transition a b c]) = hook_lines lg"
  "hook_lines (lg @ [log_event a b, log_transition a' b' c']) = hook_lines lg"
  by (simp_all add: hook_lines_def log_event_def log_transition_def log_requested_def
        log_active_def log_need_close_def log_closed_def)

lemma closed_run:
  "state self = STATE_CLOSED \<Longrightarrow>
     run h (replicate n REMOTE_CLOSED) (self, lg) =
       Returned (self, lg @ concat (replicate n
                   [log_event (name self) ''REMOTE_CLOSED'',
                    log_transition (name self) ''STATE_CLOSED'' ''STATE_CLOSED'']))"
  by (induction n arbitrary: lg) (simp_all add: closed_step)

lemma closed_visited:
  "state self = STATE_CLOSED \<Longrightarrow>
     visited h (replicate n REMOTE_CLOSED) (self, lg) = replicate n STATE_CLOSED"
  by (induction n arbitrary: lg) (simp_all add: closed_step)

lemma hook_lines_append: "hook_lines (xs @ ys) = hook_lines xs @ hook_lines ys"
  by (simp add: hook_lines_def)

lemma hook_lines_closed_loop:
  "hook_lines (concat (replicate n [log_event a ''REMOTE_CLOSED'',
       log_transition a ''STATE_CLOSED'' ''STATE_CLOSED''])) = []"
  by (induction n) (simp_all add: hook_lines_def log_event_def log_transition_def log_requested_def
        log_active_def log_need_close_def log_closed_def)

lemma error_run:
  "state self = STATE_ERROR \<Longrightarrow> set events \<subseteq> set ALL_EVENTS \<Longrightarrow>
     run h events (self, lg) =
       Returned (self, lg @ concat (map (\<lambda>e. [log_event (name self) (EVENT_NAMES ! nat e),
                    log_transition (name self) ''STATE_ERROR'' ''STATE_ERROR'']) events))"
  by (induction events arbitrary: lg) (simp_all add: error_step)

lemma error_visited:
  "state self = STATE_ERROR \<Longrightarrow> set events \<subseteq> set ALL_EVENTS \<Longrightarrow>
     visited h events (self, lg) = replicate (length events) STATE_ERROR"
  by (induction events arbitrary: lg) (simp_all add: error_step)

lemma closed_miss:
  assumes "state self = STATE_CLOSED" "event \<in> set [LOCAL_OPENED, LOCAL_CLOSED, REMOTE_OPENED]"
  shows "process_endpoint_event h event (self, lg) =
           ep_error h (error_message (EVENT_NAMES ! nat event) ''STATE_CLOSED'')
             (self\<lparr>state := STATE_ERROR\<rparr>, lg @ [log_event (name self) (EVENT_NAMES ! nat event)])"
proof -
  obtain f where f: "FSM (state self) = Some f" "f event = None"
    using FSM_CLOSED assms by auto
  have e: "event \<in> set ALL_EVENTS" using assms(2) by (auto simp: ALL_EVENTS_def)
  show ?thesis
    using dispatch_miss[OF f e, of h lg] assms(1)
    by (simp add: STATE_CLOSED_def STATE_NAMES_def)
qed

lemmas eval_defs =
  process_endpoint_event_def py_index_def FSM_def default_hooks_def init_def
  EVENT_NAMES_def STATE_NAMES_def state_defs event_defs

lemmas line_defs =
  hook_lines_def log_event_def log_transition_def log_requested_def log_active_def
  log_need_close_def log_closed_def log_error_def

lemma dispatch_default_related:
  fixes self self' :: "'m endpoint_scheme"
  assumes "state self \<in> set ALL_STATES" "event \<in> set ALL_EVENTS"
    "state self' = state self" "name self' = name self"
  shows "\<exists>ns new. ns \<in> set ALL_STATES
           \<and> process_endpoint_event default_hooks event (self, lg)
               = Returned (self\<lparr>state := ns\<rparr>, lg @ new)
           \<and> process_endpoint_event default_hooks event (self', lg')
               = Returned (self'\<lparr>state := ns\<rparr>, lg' @ new)"
proof -
  obtain f where f: "FSM (state self) = Some f"
    using FSM_defined[OF assms(1)] by blast
  have f': "FSM (state self') = Some f" using f assms(3) by simp
  show ?thesis
  proof (cases "f event")
    case None
    have "STATE_ERROR \<in> set ALL_STATES" by (simp add: ALL_STATES_def)
    then show ?thesis
      using dispatch_miss[OF f None assms(2), of default_hooks lg]
        dispatch_miss[OF f' None assms(2), of default_hooks lg'] assms(3,4)
      by (simp add: default_hooks_simps) blast
  next
    case (Some entry)
    obtain ns a where e: "f event = Some (ns, a)" using Some by (cases entry) simp
    have "ns \<in> set ALL_STATES" using FSM_target[OF f e] .
    then show ?thesis
      using dispatch_hit[OF f e assms(2), of default_hooks lg]
        dispatch_hit[OF f' e assms(2), of default_hooks lg'] assms(3,4)
      by (cases a; simp add: call_default_state; blast)
  qed
qed

lemma hook_lines_ignored [simp]:
  "hook_lines (lg @ [log_ignored_remote a]) = hook_lines lg"
  "hook_lines (lg @ [log_ignored_local a]) = hook_lines lg"
  by (simp_all add: hook_lines_def log_ignored_remote_def log_ignored_local_def
        log_requested_def log_active_def log_need_close_def log_closed_def)

lemma run_append:
  "run h (xs @ ys) w =
     (case run h xs w of Returned w1 \<Rightarrow> run h ys w1 | Raised x w1 \<Rightarrow> Raised x w1)"
  by (induction xs arbitrary: w) (simp_all split: outcome.splits)


lemma local_notification:
  fixes self self' :: "'m endpoint_scheme"
  assumes "old_proton pv" "state self \<in> set ALL_STATES"
    "local_events self = Some (drop nl [LOCAL_OPENED, LOCAL_CLOSED])"
    "state self' = state self" "name self' = name self" "hook_lines lg' = hook_lines lg"
  shows "\<exists>s1 l1 s2 l2.
           process_local_state pv default_hooks (self, lg) = Returned (s1, l1)
         \<and> run default_hooks
             (if nl = 0 then [LOCAL_OPENED] else if nl = 1 then [LOCAL_CLOSED] else [])
             (self', lg') = Returned (s2, l2)
         \<and> state s1 = state s2 \<and> name s1 = name s2 \<and> hook_lines l1 = hook_lines l2
         \<and> state s1 \<in> set ALL_STATES
         \<and> local_events s1 = Some (drop (Suc nl) [LOCAL_OPENED, LOCAL_CLOSED])
         \<and> remote_events s1 = remote_events self"
proof -
  consider "nl = 0" | "nl = 1" | "2 \<le> nl" by linarith
  then show ?thesis
  proof cases
    case 1
    let ?p = "self\<lparr>local_events := Some [LOCAL_CLOSED]\<rparr>"
    have e: "LOCAL_OPENED \<in> set ALL_EVENTS" by (simp add: ALL_EVENTS_def)
    obtain ns new where
      "ns \<in> set ALL_STATES"
      "process_endpoint_event default_hooks LOCAL_OPENED (?p, lg)
         = Returned (?p\<lparr>state := ns\<rparr>, lg @ new)"
      "process_endpoint_event default_hooks LOCAL_OPENED (self', lg')
         = Returned (self'\<lparr>state := ns\<rparr>, lg' @ new)"
      using dispatch_default_related[of ?p LOCAL_OPENED self' lg lg'] assms(2,4,5) e
      by auto
    then show ?thesis
      using 1 assms by (simp add: process_local_state_def hook_lines_append)
  next
    case 2
    let ?p = "self\<lparr>local_events := Some []\<rparr>"
    have e: "LOCAL_CLOSED \<in> set ALL_EVENTS" by (simp add: ALL_EVENTS_def)
    obtain ns new where
      "ns \<in> set ALL_STATES"
      "process_endpoint_event default_hooks LOCAL_CLOSED (?p, lg)
         = Returned (?p\<lparr>state := ns\<rparr>, lg @ new)"
      "process_endpoint_event default_hooks LOCAL_CLOSED (self', lg')
         = Returned (self'\<lparr>state := ns\<rparr>, lg' @ new)"
      using dispatch_default_related[of ?p LOCAL_CLOSED self' lg lg'] assms(2,4,5) e
      by auto
    then show ?thesis
      using 2 assms by (simp add: process_local_state_def hook_lines_append)
  next
    case 3
    then show ?thesis
      using assms by (simp add: process_local_state_def)
  qed
qed

lemma remote_notification:
  fixes self self' :: "'m endpoint_scheme"
  assumes "old_proton pv" "state self \<in> set ALL_STATES"
    "remote_events self = Some (drop nr [REMOTE_OPENED, REMOTE_CLOSED])"
    "state self' = state self" "name self' = name self" "hook_lines lg' = hook_lines lg"
  shows "\<exists>s1 l1 s2 l2.
           process_remote_state pv default_hooks (self, lg) = Returned (s1, l1)
         \<and> run default_hooks
             (if nr = 0 then [REMOTE_OPENED] else if nr = 1 then [REMOTE_CLOSED] else [])
             (self', lg') = Returned (s2, l2)
         \<and> state s1 = state s2 \<and> name s1 = name s2 \<and> hook_lines l1 = hook_lines l2
         \<and> state s1 \<in> set ALL_STATES
         \<and> remote_events s1 = Some (drop (Suc nr) [REMOTE_OPENED, REMOTE_CLOSED])
         \<and> local_events s1 = local_events self"
proof -
  consider "nr = 0" | "nr = 1" | "2 \<le> nr" by linarith
  then show ?thesis
  proof cases
    case 1
    let ?p = "self\<lparr>remote_events := Some [REMOTE_CLOSED]\<rparr>"
    have e: "REMOTE_OPENED \<in> set ALL_EVENTS" by (simp add: ALL_EVENTS_def)
    obtain ns new where
      "ns \<in> set ALL_STATES"
      "process_endpoint_event default_hooks REMOTE_OPENED (?p, lg)
         = Returned (?p\<lparr>state := ns\<rparr>, lg @ new)"
      "process_endpoint_event default_hooks REMOTE_OPENED (self', lg')
         = Returned (self'\<lparr>state := ns\<rparr>, lg' @ new)"
      using dispatch_default_related[of ?p REMOTE_OPENED self' lg lg'] assms(2,4,5) e
      by auto
    then show ?thesis
      using 1 assms by (simp add: process_remote_state_def hook_lines_append)
  next
    case 2
    let ?p = "self\<lparr>remote_events := Some []\<rparr>"
    have e: "REMOTE_CLOSED \<in> set ALL_EVENTS" by (simp add: ALL_EVENTS_def)
    obtain ns new where
      "ns \<in> set ALL_STATES"
      "process_endpoint_event default_hooks REMOTE_CLOSED (?p, lg)
         = Returned (?p\<lparr>state := ns\<rparr>, lg @ new)"
      "process_endpoint_event default_hooks REMOTE_CLOSED (self', lg')
         = Returned (self'\<lparr>state := ns\<rparr>, lg' @ new)"
      using dispatch_default_related[of ?p REMOTE_CLOSED self' lg lg'] assms(2,4,5) e
      by auto
    then show ?thesis
      using 2 assms by (simp add: process_remote_state_def hook_lines_append)
  next
    case 3
    then show ?thesis
      using assms by (simp add: process_remote_state_def)
  qed
qed

lemma shim_refines:
  fixes self self' :: "'m endpoint_scheme"
  assumes "old_proton pv"
  shows "state self \<in> set ALL_STATES \<Longrightarrow>
         local_events self = Some (drop nl [LOCAL_OPENED, LOCAL_CLOSED]) \<Longrightarrow>
         remote_events self = Some (drop nr [REMOTE_OPENED, REMOTE_CLOSED]) \<Longrightarrow>
         state self' = state self \<Longrightarrow> name self' = name self \<Longrightarrow>
         hook_lines lg' = hook_lines lg \<Longrightarrow>
         \<exists>s1 l1 s2 l2.
            deliver pv default_hooks cs (self, lg) = Returned (s1, l1)
          \<and> run default_hooks (spec_inferred_events nl nr cs) (self', lg') = Returned (s2, l2)
          \<and> state s1 = state s2 \<and> hook_lines l1 = hook_lines l2"
proof (induction cs arbitrary: self lg self' lg' nl nr)
  case Nil
  then show ?case by simp
next
  case (Cons c cs)
  show ?case
  proof (cases c)
    case Local_changed
    obtain s1 l1 s2 l2 where n:
      "process_local_state pv default_hooks (self, lg) = Returned (s1, l1)"
      "run default_hooks
         (if nl = 0 then [LOCAL_OPENED] else if nl = 1 then [LOCAL_CLOSED] else [])
         (self', lg') = Returned (s2, l2)"
      "state s1 = state s2" "name s1 = name s2" "hook_lines l1 = hook_lines l2"
      "state s1 \<in> set ALL_STATES"
      "local_events s1 = Some (drop (Suc nl) [LOCAL_OPENED, LOCAL_CLOSED])"
      "remote_events s1 = remote_events self"
      using local_notification[OF assms Cons.prems(1,2,4,5,6)] by blast
    have "\<exists>t1 k1 t2 k2.
            deliver pv default_hooks cs (s1, l1) = Returned (t1, k1)
          \<and> run default_hooks (spec_inferred_events (Suc nl) nr cs) (s2, l2) = Returned (t2, k2)
          \<and> state t1 = state t2 \<and> hook_lines k1 = hook_lines k2"
    proof (rule Cons.IH)
      show "state s1 \<in> set ALL_STATES" by fact
      show "local_events s1 = Some (drop (Suc nl) [LOCAL_OPENED, LOCAL_CLOSED])" by fact
      show "remote_events s1 = Some (drop nr [REMOTE_OPENED, REMOTE_CLOSED])"
        using n(8) Cons.prems(3) by simp
      show "state s2 = state s1" using n(3) by simp
      show "name s2 = name s1" using n(4) by simp
      show "hook_lines l2 = hook_lines l1" using n(5) by simp
    qed
    then show ?thesis
      using Local_changed n(1,2) by (simp add: run_append)
  next
    case Remote_changed
    obtain s1 l1 s2 l2 where n:
      "process_remote_state pv default_hooks (self, lg) = Returned (s1, l1)"
      "run default_hooks
         (if nr = 0 then [REMOTE_OPENED] else if nr = 1 then [REMOTE_CLOSED] else [])
         (self', lg') = Returned (s2, l2)"
      "state s1 = state s2" "name s1 = name s2" "hook_lines l1 = hook_lines l2"
      "state s1 \<in> set ALL_STATES"
      "remote_events s1 = Some (drop (Suc nr) [REMOTE_OPENED, REMOTE_CLOSED])"
      "local_events s1 = local_events self"
      using remote_notification[OF assms Cons.prems(1,3,4,5,6)] by blast
    have "\<exists>t1 k1 t2 k2.
            deliver pv default_hooks cs (s1, l1) = Returned (t1, k1)
          \<and> run default_hooks (spec_inferred_events nl (Suc nr) cs) (s2, l2) = Returned (t2, k2)
          \<and> state t1 = state t2 \<and> hook_lines k1 = hook_lines k2"
    proof (rule Cons.IH)
      show "state s1 \<in> set ALL_STATES" by fact
      show "remote_events s1 = Some (drop (Suc nr) [REMOTE_OPENED, REMOTE_CLOSED])" by fact
      show "local_events s1 = Some (drop nl [LOCAL_OPENED, LOCAL_CLOSED])"
        using n(8) Cons.prems(2) by simp
      show "state s2 = state s1" using n(3) by simp
      show "name s2 = name s1" using n(4) by simp
      show "hook_lines l2 = hook_lines l1" using n(5) by simp
    qed
    then show ?thesis
      using Remote_changed n(1,2) by (simp add: run_append)
  qed
qed


section \<open>Dispatch on a missing entry\<close>

text \<open>
  Claim C1. Take any of the ten states and any of the four events. When the table has
  no entry for the pair, the dispatch is exactly one call of \<^verbatim>\<open>_ep_error\<close>, made on the
  instance whose state is already \<open>STATE_ERROR\<close>, with the message
  \<^verbatim>\<open>invalid event=<event name> in state=<old state name>\<close>, and nothing else: with the
  methods of \<^verbatim>\<open>Endpoint\<close> the log gains the event line and the error line only. From a
  state other than \<open>STATE_ERROR\<close> the dispatch ends in \<open>STATE_ERROR\<close> exactly when the
  table has no entry.
\<close>

theorem table_miss_is_the_error_path:
  fixes h :: "'m hooks" and self :: "'m endpoint_scheme"
  assumes "state self \<in> set ALL_STATES" and "event \<in> set ALL_EVENTS"
  shows "(\<forall>f. FSM (state self) = Some f \<and> f event = None \<longrightarrow>
            process_endpoint_event h event (self, lg) =
              ep_error h
                (''invalid event='' @ EVENT_NAMES ! nat event @
                 '' in state='' @ STATE_NAMES ! nat (state self))
                (self\<lparr>state := STATE_ERROR\<rparr>,
                 lg @ [log_event (name self) (EVENT_NAMES ! nat event)]) \<and>
            process_endpoint_event default_hooks event (self, lg) =
              Returned
                (self\<lparr>state := STATE_ERROR\<rparr>,
                 lg @ [log_event (name self) (EVENT_NAMES ! nat event),
                       log_error (name self)
                         (''invalid event='' @ EVENT_NAMES ! nat event @
                          '' in state='' @ STATE_NAMES ! nat (state self))]))
       \<and> (state self \<noteq> STATE_ERROR \<longrightarrow>
            (state (fst (world_of (process_endpoint_event default_hooks event (self, lg))))
               = STATE_ERROR
             \<longleftrightarrow> (\<exists>f. FSM (state self) = Some f \<and> f event = None)))"
proof (intro conjI allI impI)
  fix f assume a: "FSM (state self) = Some f \<and> f event = None"
  then show "process_endpoint_event h event (self, lg) =
              ep_error h
                (''invalid event='' @ EVENT_NAMES ! nat event @
                 '' in state='' @ STATE_NAMES ! nat (state self))
                (self\<lparr>state := STATE_ERROR\<rparr>,
                 lg @ [log_event (name self) (EVENT_NAMES ! nat event)])"
    using dispatch_miss[of self f event h lg] assms(2) by (simp add: error_message_def)
  from a show "process_endpoint_event default_hooks event (self, lg) =
              Returned
                (self\<lparr>state := STATE_ERROR\<rparr>,
                 lg @ [log_event (name self) (EVENT_NAMES ! nat event),
                       log_error (name self)
                         (''invalid event='' @ EVENT_NAMES ! nat event @
                          '' in state='' @ STATE_NAMES ! nat (state self))])"
    using dispatch_miss[of self f event default_hooks lg] assms(2)
    by (simp add: error_message_def default_hooks_simps)
next
  assume ne: "state self \<noteq> STATE_ERROR"
  obtain f where f: "FSM (state self) = Some f"
    using FSM_defined[OF assms(1)] by blast
  show "state (fst (world_of (process_endpoint_event default_hooks event (self, lg))))
               = STATE_ERROR
             \<longleftrightarrow> (\<exists>f. FSM (state self) = Some f \<and> f event = None)"
  proof (cases "f event")
    case None
    then show ?thesis
      using dispatch_miss[OF f None assms(2), of default_hooks lg] f
      by (simp add: default_hooks_simps)
  next
    case (Some entry)
    obtain ns a where e: "f event = Some (ns, a)" using Some by (cases entry) simp
    have "ns \<noteq> STATE_ERROR" using FSM_no_error_target[OF f e ne] .
    then show ?thesis
      using dispatch_hit[OF f e assms(2), of default_hooks lg] f e
      by (cases a) (simp_all add: call_default_state)
  qed
qed

theorem table_miss_is_the_error_path_witness:
  "process_endpoint_event default_hooks LOCAL_OPENED (closed_link, []) =
     Returned (closed_link\<lparr>state := STATE_ERROR\<rparr>,
               [log_event ''link'' ''LOCAL_OPENED'',
                log_error ''link'' ''invalid event=LOCAL_OPENED in state=STATE_CLOSED''])"
proof -
  have s: "state closed_link \<in> set ALL_STATES"
    by (simp add: closed_link_def ALL_STATES_def)
  have e: "LOCAL_OPENED \<in> set ALL_EVENTS" by (simp add: ALL_EVENTS_def)
  have m: "FSM (state closed_link) = Some (map_of [(REMOTE_CLOSED, (STATE_CLOSED, None))])
           \<and> map_of [(REMOTE_CLOSED, (STATE_CLOSED, None::action option))] LOCAL_OPENED = None"
    by (simp add: closed_link_def FSM_def state_defs event_defs)
  show ?thesis
    using table_miss_is_the_error_path
            [OF s e, of default_hooks "[]", THEN conjunct1, THEN spec, THEN mp, OF m,
             THEN conjunct2]
    by (simp add: closed_link_def EVENT_NAMES_def STATE_NAMES_def event_defs state_defs)
qed

section \<open>The terminal states\<close>

text \<open>
  Claim C4. In \<open>STATE_ERROR\<close> each of the four events has a table entry, which leads back
  to \<open>STATE_ERROR\<close> with no action. So for every set of methods, the overridden ones
  included, the dispatch returns the instance as it was and logs the event line and the
  transition line: no method is called, \<^verbatim>\<open>_ep_error\<close> neither.
\<close>

theorem error_state_ignores_events:
  fixes h :: "'m hooks" and self :: "'m endpoint_scheme"
  assumes "state self = STATE_ERROR" and "event \<in> set ALL_EVENTS"
  shows "(\<exists>f. FSM STATE_ERROR = Some f \<and> f event = Some (STATE_ERROR, None))
       \<and> process_endpoint_event h event (self, lg) =
           Returned (self, lg @ [log_event (name self) (EVENT_NAMES ! nat event),
                                 log_transition (name self) ''STATE_ERROR'' ''STATE_ERROR''])
       \<and> hook_lines (snd (world_of (process_endpoint_event default_hooks event (self, lg))))
           = hook_lines lg"
  using FSM_ERROR[OF assms(2)] error_step[OF assms]
  by simp

theorem error_state_ignores_events_witness:
  "process_endpoint_event default_hooks REMOTE_OPENED (failed_link, []) =
     Returned (failed_link, [log_event ''link'' ''REMOTE_OPENED'',
                             log_transition ''link'' ''STATE_ERROR'' ''STATE_ERROR''])"
proof -
  have s: "state failed_link = STATE_ERROR" by (simp add: failed_link_def)
  have e: "REMOTE_OPENED \<in> set ALL_EVENTS" by (simp add: ALL_EVENTS_def)
  show ?thesis
    using error_state_ignores_events[OF s e, of default_hooks "[]", THEN conjunct2, THEN conjunct1]
    by (simp add: failed_link_def REMOTE_OPENED_def EVENT_NAMES_def)
qed

text \<open>
  Claim C8. In \<open>STATE_CLOSED\<close> the event \<open>REMOTE_CLOSED\<close> has the entry
  \<open>(STATE_CLOSED, None)\<close>. So any number \<open>n\<close> of such events in a row, under any set of
  methods, returns the instance as it was, finds \<open>STATE_CLOSED\<close> after each dispatch, and
  logs the event line and the transition line \<open>n\<close> times: no entry action and no
  \<^verbatim>\<open>_ep_error\<close> is called.
\<close>

theorem repeated_remote_close_in_closed:
  fixes h :: "'m hooks" and self :: "'m endpoint_scheme"
  assumes "state self = STATE_CLOSED"
  shows "run h (replicate n REMOTE_CLOSED) (self, lg) =
           Returned (self, lg @ concat (replicate n
                       [log_event (name self) ''REMOTE_CLOSED'',
                        log_transition (name self) ''STATE_CLOSED'' ''STATE_CLOSED'']))
       \<and> visited h (replicate n REMOTE_CLOSED) (self, lg) = replicate n STATE_CLOSED
       \<and> hook_lines (snd (world_of (run default_hooks (replicate n REMOTE_CLOSED) (self, lg))))
           = hook_lines lg"
  using closed_run[OF assms] closed_visited[OF assms]
  by (simp add: hook_lines_append hook_lines_closed_loop)

theorem repeated_remote_close_in_closed_witness:
  "run default_hooks [REMOTE_CLOSED, REMOTE_CLOSED, REMOTE_CLOSED] (closed_link, []) =
     Returned (closed_link,
       [log_event ''link'' ''REMOTE_CLOSED'',
        log_transition ''link'' ''STATE_CLOSED'' ''STATE_CLOSED'',
        log_event ''link'' ''REMOTE_CLOSED'',
        log_transition ''link'' ''STATE_CLOSED'' ''STATE_CLOSED'',
        log_event ''link'' ''REMOTE_CLOSED'',
        log_transition ''link'' ''STATE_CLOSED'' ''STATE_CLOSED''])
   \<and> visited default_hooks [REMOTE_CLOSED, REMOTE_CLOSED, REMOTE_CLOSED] (closed_link, [])
       = [STATE_CLOSED, STATE_CLOSED, STATE_CLOSED]"
proof -
  have s: "state closed_link = STATE_CLOSED" by (simp add: closed_link_def)
  have r: "replicate 3 REMOTE_CLOSED = [REMOTE_CLOSED, REMOTE_CLOSED, REMOTE_CLOSED]"
    by (simp add: numeral_3_eq_3)
  have n: "name closed_link = ''link''" by (simp add: closed_link_def)
  show ?thesis
    using repeated_remote_close_in_closed[OF s, of default_hooks 3 "[]"]
    unfolding r n by (simp add: numeral_3_eq_3)
qed

text \<open>
  Claim C2, as the code has it. \<open>STATE_ERROR\<close> is absorbing: any sequence of the four
  events, under any set of methods, returns the instance as it was. \<open>STATE_CLOSED\<close> is
  absorbing for \<open>REMOTE_CLOSED\<close> only: any number of them returns the instance as it was,
  while \<open>LOCAL_OPENED\<close>, \<open>LOCAL_CLOSED\<close> and \<open>REMOTE_OPENED\<close> have no entry in
  \<open>STATE_CLOSED\<close> and take the missing-entry path, which sets \<open>STATE_ERROR\<close> and calls
  \<^verbatim>\<open>_ep_error\<close>.
\<close>

theorem terminal_states_absorb:
  fixes h :: "'m hooks" and self :: "'m endpoint_scheme"
  shows "(state self = STATE_ERROR \<and> set events \<subseteq> set ALL_EVENTS \<longrightarrow>
            run h events (self, lg) =
              Returned (self, lg @ concat (map (\<lambda>e.
                 [log_event (name self) (EVENT_NAMES ! nat e),
                  log_transition (name self) ''STATE_ERROR'' ''STATE_ERROR'']) events))
            \<and> visited h events (self, lg) = replicate (length events) STATE_ERROR)
       \<and> (state self = STATE_CLOSED \<longrightarrow>
            run h (replicate n REMOTE_CLOSED) (self, lg) =
              Returned (self, lg @ concat (replicate n
                 [log_event (name self) ''REMOTE_CLOSED'',
                  log_transition (name self) ''STATE_CLOSED'' ''STATE_CLOSED'']))
            \<and> visited h (replicate n REMOTE_CLOSED) (self, lg) = replicate n STATE_CLOSED)
       \<and> (state self = STATE_CLOSED \<and> event \<in> set [LOCAL_OPENED, LOCAL_CLOSED, REMOTE_OPENED] \<longrightarrow>
            process_endpoint_event h event (self, lg) =
              ep_error h (error_message (EVENT_NAMES ! nat event) ''STATE_CLOSED'')
                (self\<lparr>state := STATE_ERROR\<rparr>,
                 lg @ [log_event (name self) (EVENT_NAMES ! nat event)]))"
  using error_run[of self events h lg] error_visited[of self events h lg]
    closed_run[of self h n lg] closed_visited[of self h n lg] closed_miss[of self event h lg]
  by blast

theorem terminal_states_absorb_witness:
  "visited default_hooks [LOCAL_OPENED, REMOTE_CLOSED] (failed_link, []) =
     [STATE_ERROR, STATE_ERROR]
   \<and> visited default_hooks [REMOTE_CLOSED, REMOTE_CLOSED] (closed_link, []) =
     [STATE_CLOSED, STATE_CLOSED]
   \<and> process_endpoint_event default_hooks REMOTE_OPENED (closed_link, []) =
       Returned (closed_link\<lparr>state := STATE_ERROR\<rparr>,
                 [log_event ''link'' ''REMOTE_OPENED'',
                  log_error ''link'' ''invalid event=REMOTE_OPENED in state=STATE_CLOSED''])"
proof -
  have a: "state failed_link = STATE_ERROR
           \<and> set [LOCAL_OPENED, REMOTE_CLOSED] \<subseteq> set ALL_EVENTS"
    by (simp add: failed_link_def ALL_EVENTS_def)
  have b: "state closed_link = STATE_CLOSED" by (simp add: closed_link_def)
  have c: "state closed_link = STATE_CLOSED
           \<and> REMOTE_OPENED \<in> set [LOCAL_OPENED, LOCAL_CLOSED, REMOTE_OPENED]"
    by (simp add: closed_link_def)
  have r: "replicate 2 REMOTE_CLOSED = [REMOTE_CLOSED, REMOTE_CLOSED]"
    by (simp add: numeral_2_eq_2)
  have 1: "visited default_hooks [LOCAL_OPENED, REMOTE_CLOSED] (failed_link, []) =
             [STATE_ERROR, STATE_ERROR]"
    using terminal_states_absorb
            [of failed_link "[LOCAL_OPENED, REMOTE_CLOSED]" default_hooks "[]",
             THEN conjunct1, THEN mp, OF a, THEN conjunct2]
    by (simp add: numeral_2_eq_2)
  have 2: "visited default_hooks [REMOTE_CLOSED, REMOTE_CLOSED] (closed_link, []) =
             [STATE_CLOSED, STATE_CLOSED]"
    using terminal_states_absorb
            [of closed_link _ default_hooks "[]" 2,
             THEN conjunct2, THEN conjunct1, THEN mp, OF b, THEN conjunct2]
    unfolding r by (simp add: numeral_2_eq_2)
  have 3: "process_endpoint_event default_hooks REMOTE_OPENED (closed_link, []) =
       Returned (closed_link\<lparr>state := STATE_ERROR\<rparr>,
                 [log_event ''link'' ''REMOTE_OPENED'',
                  log_error ''link'' ''invalid event=REMOTE_OPENED in state=STATE_CLOSED''])"
    using terminal_states_absorb
            [of closed_link _ default_hooks "[]" _ REMOTE_OPENED,
             THEN conjunct2, THEN conjunct2, THEN mp, OF c]
    by (simp add: default_hooks_simps error_message_def closed_link_def EVENT_NAMES_def
          REMOTE_OPENED_def)
  from 1 2 3 show ?thesis by blast
qed

text \<open>
  Claim C2 as written fails: a closed endpoint that receives \<open>LOCAL_CLOSED\<close> ends in
  \<open>STATE_ERROR\<close>.
\<close>

theorem closed_is_left_on_local_close:
  "state closed_link = STATE_CLOSED \<and> LOCAL_CLOSED \<in> set ALL_EVENTS
   \<and> process_endpoint_event default_hooks LOCAL_CLOSED (closed_link, []) =
       Returned (closed_link\<lparr>state := STATE_ERROR\<rparr>,
                 [log_event ''link'' ''LOCAL_CLOSED'',
                  log_error ''link'' ''invalid event=LOCAL_CLOSED in state=STATE_CLOSED''])
   \<and> state (closed_link\<lparr>state := STATE_ERROR\<rparr>) \<noteq> STATE_CLOSED"
  by (simp add: process_endpoint_event_def py_index_def FSM_def closed_link_def ALL_EVENTS_def
        default_hooks_def error_message_def EVENT_NAMES_def STATE_NAMES_def state_defs event_defs)

section \<open>Dispatch on an entry with an action\<close>

text \<open>
  Claim C3. When the table has an entry with an action for the pair, the dispatch is the
  call of that action on the instance whose state field already holds the new state:
  the assignment comes first, the call second, and whatever the action reads from the
  state field is the new state.
\<close>

theorem entry_action_sees_new_state:
  fixes h :: "'m hooks" and self :: "'m endpoint_scheme"
  assumes "FSM (state self) = Some f" and "f event = Some (ns, Some act)"
    and "event \<in> set ALL_EVENTS"
  shows "process_endpoint_event h event (self, lg) =
           call act h
             (self\<lparr>state := ns\<rparr>,
              lg @ [log_event (name self) (EVENT_NAMES ! nat event),
                    log_transition (name self) (STATE_NAMES ! nat (state self))
                      (STATE_NAMES ! nat ns)])
         \<and> state (self\<lparr>state := ns\<rparr>) = ns"
  using dispatch_hit[OF assms, of h lg] by simp

theorem entry_action_sees_new_state_witness:
  "process_endpoint_event observing_hooks REMOTE_OPENED (pending_link, []) =
     Returned (pending_link\<lparr>state := STATE_ACTIVE\<rparr>,
               [log_event ''link'' ''REMOTE_OPENED'',
                log_transition ''link'' ''STATE_PENDING'' ''STATE_ACTIVE'',
                (DEBUG, ''observed state %s'', [''STATE_ACTIVE''])])"
proof -
  have t: "FSM (state pending_link) =
             Some (map_of [(LOCAL_CLOSED, (STATE_CANCELLED, None)),
                           (REMOTE_OPENED, (STATE_ACTIVE, Some Call_ep_active))])"
    by (simp add: pending_link_def FSM_def state_defs)
  have e: "map_of [(LOCAL_CLOSED, (STATE_CANCELLED, None)),
                   (REMOTE_OPENED, (STATE_ACTIVE, Some Call_ep_active))] REMOTE_OPENED
             = Some (STATE_ACTIVE, Some Call_ep_active)"
    by (simp add: event_defs)
  have v: "REMOTE_OPENED \<in> set ALL_EVENTS" by (simp add: ALL_EVENTS_def)
  show ?thesis
    using entry_action_sees_new_state[OF t e v, of observing_hooks "[]", THEN conjunct1]
    by (simp add: observing_hooks_def pending_link_def STATE_NAMES_def EVENT_NAMES_def
          state_defs event_defs)
qed

section \<open>Paths from the initial state\<close>

text \<open>
  Claim C5. A fresh endpoint with the methods of \<^verbatim>\<open>Endpoint\<close>, given \<open>LOCAL_OPENED\<close>,
  \<open>REMOTE_OPENED\<close>, \<open>LOCAL_CLOSED\<close>, \<open>REMOTE_CLOSED\<close>, is found in \<open>STATE_PENDING\<close>,
  \<open>STATE_ACTIVE\<close>, \<open>STATE_CLOSING\<close>, \<open>STATE_CLOSED\<close> after the four dispatches, none of
  which raises, and the methods called are \<^verbatim>\<open>_ep_active\<close> once and then \<^verbatim>\<open>_ep_closed\<close>
  once. With the first two events swapped it goes through \<open>STATE_REQUESTED\<close> and
  \<open>STATE_ACTIVE\<close> to \<open>STATE_CLOSED\<close>, and the calls are \<^verbatim>\<open>_ep_requested\<close>, \<^verbatim>\<open>_ep_active\<close>,
  \<^verbatim>\<open>_ep_closed\<close>, in this order.
\<close>

theorem happy_paths:
  fixes m :: 'm
  shows "visited default_hooks [LOCAL_OPENED, REMOTE_OPENED, LOCAL_CLOSED, REMOTE_CLOSED]
           (init pv nm m, lg)
           = [STATE_PENDING, STATE_ACTIVE, STATE_CLOSING, STATE_CLOSED]
       \<and> is_Returned (run default_hooks
            [LOCAL_OPENED, REMOTE_OPENED, LOCAL_CLOSED, REMOTE_CLOSED] (init pv nm m, lg))
       \<and> hook_lines (snd (world_of (run default_hooks
            [LOCAL_OPENED, REMOTE_OPENED, LOCAL_CLOSED, REMOTE_CLOSED] (init pv nm m, lg))))
           = hook_lines lg @ [log_active, log_closed]
       \<and> visited default_hooks [REMOTE_OPENED, LOCAL_OPENED, LOCAL_CLOSED, REMOTE_CLOSED]
           (init pv nm m, lg)
           = [STATE_REQUESTED, STATE_ACTIVE, STATE_CLOSING, STATE_CLOSED]
       \<and> is_Returned (run default_hooks
            [REMOTE_OPENED, LOCAL_OPENED, LOCAL_CLOSED, REMOTE_CLOSED] (init pv nm m, lg))
       \<and> hook_lines (snd (world_of (run default_hooks
            [REMOTE_OPENED, LOCAL_OPENED, LOCAL_CLOSED, REMOTE_CLOSED] (init pv nm m, lg))))
           = hook_lines lg @ [log_requested, log_active, log_closed]"
proof (intro conjI)
  show "visited default_hooks [LOCAL_OPENED, REMOTE_OPENED, LOCAL_CLOSED, REMOTE_CLOSED]
           (init pv nm m, lg)
           = [STATE_PENDING, STATE_ACTIVE, STATE_CLOSING, STATE_CLOSED]"
    by (simp add: eval_defs)
  show "is_Returned (run default_hooks
            [LOCAL_OPENED, REMOTE_OPENED, LOCAL_CLOSED, REMOTE_CLOSED] (init pv nm m, lg))"
    by (simp add: eval_defs)
  show "hook_lines (snd (world_of (run default_hooks
            [LOCAL_OPENED, REMOTE_OPENED, LOCAL_CLOSED, REMOTE_CLOSED] (init pv nm m, lg))))
           = hook_lines lg @ [log_active, log_closed]"
    by (simp add: eval_defs) (simp add: line_defs)
  show "visited default_hooks [REMOTE_OPENED, LOCAL_OPENED, LOCAL_CLOSED, REMOTE_CLOSED]
           (init pv nm m, lg)
           = [STATE_REQUESTED, STATE_ACTIVE, STATE_CLOSING, STATE_CLOSED]"
    by (simp add: eval_defs)
  show "is_Returned (run default_hooks
            [REMOTE_OPENED, LOCAL_OPENED, LOCAL_CLOSED, REMOTE_CLOSED] (init pv nm m, lg))"
    by (simp add: eval_defs)
  show "hook_lines (snd (world_of (run default_hooks
            [REMOTE_OPENED, LOCAL_OPENED, LOCAL_CLOSED, REMOTE_CLOSED] (init pv nm m, lg))))
           = hook_lines lg @ [log_requested, log_active, log_closed]"
    by (simp add: eval_defs) (simp add: line_defs)
qed

text \<open>
  Claim C7. A fresh endpoint given \<open>LOCAL_OPENED\<close>, \<open>LOCAL_CLOSED\<close>, \<open>REMOTE_OPENED\<close>,
  \<open>REMOTE_CLOSED\<close> is found in \<open>STATE_PENDING\<close>, \<open>STATE_CANCELLED\<close>, \<open>STATE_CLOSING\<close>,
  \<open>STATE_CLOSED\<close>; the only method called on the way is \<^verbatim>\<open>_ep_closed\<close>, on the last
  edge. On the edge from \<open>STATE_CANCELLED\<close> to \<open>STATE_CLOSING\<close> the dispatch returns
  without calling any method, whatever the methods are.
\<close>

theorem early_cancel_path:
  fixes m :: 'm and h :: "'m hooks" and self :: "'m endpoint_scheme"
  shows "visited default_hooks [LOCAL_OPENED, LOCAL_CLOSED, REMOTE_OPENED, REMOTE_CLOSED]
           (init pv nm m, lg)
           = [STATE_PENDING, STATE_CANCELLED, STATE_CLOSING, STATE_CLOSED]
       \<and> is_Returned (run default_hooks
            [LOCAL_OPENED, LOCAL_CLOSED, REMOTE_OPENED, REMOTE_CLOSED] (init pv nm m, lg))
       \<and> hook_lines (snd (world_of (run default_hooks
            [LOCAL_OPENED, LOCAL_CLOSED, REMOTE_OPENED, REMOTE_CLOSED] (init pv nm m, lg))))
           = hook_lines lg @ [log_closed]
       \<and> (state self = STATE_CANCELLED \<longrightarrow>
            process_endpoint_event h REMOTE_OPENED (self, lg) =
              Returned (self\<lparr>state := STATE_CLOSING\<rparr>,
                        lg @ [log_event (name self) ''REMOTE_OPENED'',
                              log_transition (name self) ''STATE_CANCELLED'' ''STATE_CLOSING'']))"
proof (intro conjI impI)
  show "visited default_hooks [LOCAL_OPENED, LOCAL_CLOSED, REMOTE_OPENED, REMOTE_CLOSED]
           (init pv nm m, lg)
           = [STATE_PENDING, STATE_CANCELLED, STATE_CLOSING, STATE_CLOSED]"
    by (simp add: eval_defs)
  show "is_Returned (run default_hooks
            [LOCAL_OPENED, LOCAL_CLOSED, REMOTE_OPENED, REMOTE_CLOSED] (init pv nm m, lg))"
    by (simp add: eval_defs)
  show "hook_lines (snd (world_of (run default_hooks
            [LOCAL_OPENED, LOCAL_CLOSED, REMOTE_OPENED, REMOTE_CLOSED] (init pv nm m, lg))))
           = hook_lines lg @ [log_closed]"
    by (simp add: eval_defs) (simp add: line_defs)
  assume "state self = STATE_CANCELLED"
  then show "process_endpoint_event h REMOTE_OPENED (self, lg) =
              Returned (self\<lparr>state := STATE_CLOSING\<rparr>,
                        lg @ [log_event (name self) ''REMOTE_OPENED'',
                              log_transition (name self) ''STATE_CANCELLED'' ''STATE_CLOSING''])"
    by (simp add: eval_defs)
qed


theorem early_cancel_path_witness:
  "visited default_hooks [LOCAL_OPENED, LOCAL_CLOSED, REMOTE_OPENED, REMOTE_CLOSED]
     (init (0, 9) ''link'' (), [])
     = [STATE_PENDING, STATE_CANCELLED, STATE_CLOSING, STATE_CLOSED]
   \<and> process_endpoint_event default_hooks REMOTE_OPENED (cancelled_link, []) =
       Returned (cancelled_link\<lparr>state := STATE_CLOSING\<rparr>,
                 [log_event ''link'' ''REMOTE_OPENED'',
                  log_transition ''link'' ''STATE_CANCELLED'' ''STATE_CLOSING''])"
proof -
  have s: "state cancelled_link = STATE_CANCELLED" by (simp add: cancelled_link_def)
  note t = early_cancel_path[of "(0, 9)" "''link''" "()" "[]" cancelled_link default_hooks]
  show ?thesis
    using t[THEN conjunct1]
      t[THEN conjunct2, THEN conjunct2, THEN conjunct2, THEN mp, OF s]
    by (simp add: cancelled_link_def)
qed

section \<open>Safety and frame of the dispatch\<close>

text \<open>
  Claim C9. For each of the ten states and each of the four events: the table has a row
  for the state; with the methods of \<^verbatim>\<open>Endpoint\<close> the dispatch returns and the state
  found afterwards is one of the ten; and with any methods the dispatch either returns
  or is the result of the one method it calls, called on an instance whose state is one
  of the ten, so it raises nothing of its own.
\<close>

theorem dispatch_never_raises:
  fixes h :: "'m hooks" and self :: "'m endpoint_scheme"
  assumes "state self \<in> set ALL_STATES" and "event \<in> set ALL_EVENTS"
  shows "(\<exists>state_fsm. FSM (state self) = Some state_fsm)
       \<and> is_Returned (process_endpoint_event default_hooks event (self, lg))
       \<and> state (fst (world_of (process_endpoint_event default_hooks event (self, lg))))
           \<in> set ALL_STATES
       \<and> (\<exists>w. state (fst w) \<in> set ALL_STATES
              \<and> (process_endpoint_event h event (self, lg) = Returned w
                 \<or> (\<exists>act. process_endpoint_event h event (self, lg) = call act h w)
                 \<or> (\<exists>msg. process_endpoint_event h event (self, lg) = ep_error h msg w)))"
proof -
  obtain f where f: "FSM (state self) = Some f"
    using FSM_defined[OF assms(1)] by blast
  have E: "STATE_ERROR \<in> set ALL_STATES" by (simp add: ALL_STATES_def)
  show ?thesis
  proof (cases "f event")
    case None
    note d = dispatch_miss[OF f None assms(2)]
    have 1: "is_Returned (process_endpoint_event default_hooks event (self, lg))"
      by (simp add: d default_hooks_simps)
    have 2: "state (fst (world_of (process_endpoint_event default_hooks event (self, lg))))
           \<in> set ALL_STATES"
      by (simp add: d default_hooks_simps E)
    have 3: "\<exists>w. state (fst w) \<in> set ALL_STATES
              \<and> (process_endpoint_event h event (self, lg) = Returned w
                 \<or> (\<exists>act. process_endpoint_event h event (self, lg) = call act h w)
                 \<or> (\<exists>msg. process_endpoint_event h event (self, lg) = ep_error h msg w))"
      using d[of h lg] E
      by (intro exI[of _ "(self\<lparr>state := STATE_ERROR\<rparr>,
             lg @ [log_event (name self) (EVENT_NAMES ! nat event)])"]) auto
    from f 1 2 3 show ?thesis by blast
  next
    case (Some entry)
    obtain ns a where e: "f event = Some (ns, a)" using Some by (cases entry) simp
    note d = dispatch_hit[OF f e assms(2)]
    have T: "ns \<in> set ALL_STATES" using FSM_target[OF f e] .
    have 1: "is_Returned (process_endpoint_event default_hooks event (self, lg))"
      by (cases a) (simp_all add: d call_default_state)
    have 2: "state (fst (world_of (process_endpoint_event default_hooks event (self, lg))))
           \<in> set ALL_STATES"
      using T by (cases a) (simp_all add: d call_default_state)
    have 3: "\<exists>w. state (fst w) \<in> set ALL_STATES
              \<and> (process_endpoint_event h event (self, lg) = Returned w
                 \<or> (\<exists>act. process_endpoint_event h event (self, lg) = call act h w)
                 \<or> (\<exists>msg. process_endpoint_event h event (self, lg) = ep_error h msg w))"
      using d[of h lg] T
      by (intro exI[of _ "(self\<lparr>state := ns\<rparr>,
             lg @ [log_event (name self) (EVENT_NAMES ! nat event),
                   log_transition (name self) (STATE_NAMES ! nat (state self))
                     (STATE_NAMES ! nat ns)])"]) (cases a; auto)
    from f 1 2 3 show ?thesis by blast
  qed
qed

theorem dispatch_never_raises_witness:
  "is_Returned (process_endpoint_event default_hooks REMOTE_CLOSED (active_link, []))
   \<and> state (fst (world_of (process_endpoint_event default_hooks REMOTE_CLOSED (active_link, []))))
       \<in> set ALL_STATES
   \<and> state active_link \<in> set ALL_STATES \<and> REMOTE_CLOSED \<in> set ALL_EVENTS"
proof -
  have s: "state active_link \<in> set ALL_STATES" by (simp add: active_link_def ALL_STATES_def)
  have e: "REMOTE_CLOSED \<in> set ALL_EVENTS" by (simp add: ALL_EVENTS_def)
  show ?thesis
    using dispatch_never_raises[OF s e, of "[]" default_hooks] s e by blast
qed

text \<open>
  Claim C10. With the methods of \<^verbatim>\<open>Endpoint\<close>, for every integer state and event (the
  ones that make the dispatch raise included), the instance after the dispatch is the
  instance before it with at most the state field changed; the name in particular is
  the same. Each of the five default methods returns the instance as it was and adds
  one line to the log.
\<close>

theorem dispatch_changes_state_only:
  fixes self :: "'m endpoint_scheme"
  shows "(\<exists>ns. fst (world_of (process_endpoint_event default_hooks event (self, lg)))
                 = self\<lparr>state := ns\<rparr>)
       \<and> name (fst (world_of (process_endpoint_event default_hooks event (self, lg))))
           = name self
       \<and> ep_requested default_hooks (self, lg) = Returned (self, lg @ [log_requested])
       \<and> ep_active default_hooks (self, lg) = Returned (self, lg @ [log_active])
       \<and> ep_need_close default_hooks (self, lg) = Returned (self, lg @ [log_need_close])
       \<and> ep_closed default_hooks (self, lg) = Returned (self, lg @ [log_closed])
       \<and> ep_error default_hooks msg (self, lg)
           = Returned (self, lg @ [log_error (name self) msg])"
proof -
  have same: "self = self\<lparr>state := state self\<rparr>" by simp
  have 1: "\<exists>ns. fst (world_of (process_endpoint_event default_hooks event (self, lg)))
                 = self\<lparr>state := ns\<rparr>"
    unfolding process_endpoint_event_def
    by (auto simp: Let_def call_default_state default_hooks_simps
          split: option.splits intro: exI[of _ "state self"])
  then obtain ns where
    "fst (world_of (process_endpoint_event default_hooks event (self, lg))) = self\<lparr>state := ns\<rparr>"
    by blast
  then have 2: "name (fst (world_of (process_endpoint_event default_hooks event (self, lg))))
           = name self" by simp
  from 1 2 show ?thesis by (simp add: default_hooks_simps)
qed

section \<open>The shim for undifferentiated notifications\<close>

text \<open>
  Claim C6. Under a Proton version before 0.8 a fresh endpoint holds the queues
  \<open>[REMOTE_OPENED, REMOTE_CLOSED]\<close> and \<open>[LOCAL_OPENED, LOCAL_CLOSED]\<close>. For every
  sequence of local and remote notifications, in any interleaving, delivering them to
  the shim returns, and it ends in the same state and has called the same methods as
  dispatching the events that the specification reads off the sequence: on each side the
  first notification is Opened, the second is Closed, any later one is nothing. A
  notification that finds its queue empty returns the instance as it was (state and both
  queues), under any set of methods, and only logs that it was ignored.
\<close>

theorem shim_infers_open_then_close:
  fixes m :: 'm and h :: "'m hooks" and self :: "'m endpoint_scheme"
  assumes "old_proton pv"
  shows "remote_events (init pv nm m) = Some [REMOTE_OPENED, REMOTE_CLOSED]
       \<and> local_events (init pv nm m) = Some [LOCAL_OPENED, LOCAL_CLOSED]
       \<and> is_Returned (deliver pv default_hooks cs (init pv nm m, lg))
       \<and> is_Returned (run default_hooks (spec_inferred_events 0 0 cs) (init pv nm m, lg))
       \<and> state (fst (world_of (deliver pv default_hooks cs (init pv nm m, lg))))
           = state (fst (world_of
               (run default_hooks (spec_inferred_events 0 0 cs) (init pv nm m, lg))))
       \<and> hook_lines (snd (world_of (deliver pv default_hooks cs (init pv nm m, lg))))
           = hook_lines (snd (world_of
               (run default_hooks (spec_inferred_events 0 0 cs) (init pv nm m, lg))))
       \<and> (remote_events self = Some [] \<longrightarrow>
            process_remote_state pv h (self, lg)
              = Returned (self, lg @ [log_ignored_remote (name self)]))
       \<and> (local_events self = Some [] \<longrightarrow>
            process_local_state pv h (self, lg)
              = Returned (self, lg @ [log_ignored_local (name self)]))"
proof -
  let ?e = "init pv nm m"
  have q: "remote_events ?e = Some [REMOTE_OPENED, REMOTE_CLOSED]"
          "local_events ?e = Some [LOCAL_OPENED, LOCAL_CLOSED]"
    using assms by (simp_all add: init_def)
  have s: "state ?e \<in> set ALL_STATES" by (simp add: init_def ALL_STATES_def)
  have "\<exists>s1 l1 s2 l2.
          deliver pv default_hooks cs (?e, lg) = Returned (s1, l1)
        \<and> run default_hooks (spec_inferred_events 0 0 cs) (?e, lg) = Returned (s2, l2)
        \<and> state s1 = state s2 \<and> hook_lines l1 = hook_lines l2"
    by (rule shim_refines[OF assms s]) (simp_all add: q)
  then have r:
    "is_Returned (deliver pv default_hooks cs (?e, lg))"
    "is_Returned (run default_hooks (spec_inferred_events 0 0 cs) (?e, lg))"
    "state (fst (world_of (deliver pv default_hooks cs (?e, lg))))
       = state (fst (world_of (run default_hooks (spec_inferred_events 0 0 cs) (?e, lg))))"
    "hook_lines (snd (world_of (deliver pv default_hooks cs (?e, lg))))
       = hook_lines (snd (world_of (run default_hooks (spec_inferred_events 0 0 cs) (?e, lg))))"
    by auto
  have x: "remote_events self = Some [] \<longrightarrow>
            process_remote_state pv h (self, lg)
              = Returned (self, lg @ [log_ignored_remote (name self)])"
          "local_events self = Some [] \<longrightarrow>
            process_local_state pv h (self, lg)
              = Returned (self, lg @ [log_ignored_local (name self)])"
    using assms by (simp_all add: process_remote_state_def process_local_state_def)
  from q r x show ?thesis by blast
qed

theorem shim_infers_open_then_close_witness:
  "state (fst (world_of (deliver (0, 7) default_hooks
      [Remote_changed, Remote_changed, Remote_changed] (init (0, 7) ''link'' (), []))))
     = STATE_ABANDONED
   \<and> hook_lines (snd (world_of (deliver (0, 7) default_hooks
      [Remote_changed, Remote_changed, Remote_changed] (init (0, 7) ''link'' (), []))))
     = [log_requested]
   \<and> process_remote_state (0, 7) default_hooks (exhausted_link, [])
       = Returned (exhausted_link, [log_ignored_remote ''link''])"
proof -
  have o: "old_proton (0, 7)" by (simp add: old_proton_def)
  have x: "remote_events exhausted_link = Some []" by (simp add: exhausted_link_def)
  have i: "spec_inferred_events 0 0 [Remote_changed, Remote_changed, Remote_changed]
             = [REMOTE_OPENED, REMOTE_CLOSED]"
    by simp
  note t = shim_infers_open_then_close
             [OF o, of "''link''" "()" "[Remote_changed, Remote_changed, Remote_changed]" "[]"
                exhausted_link default_hooks]
  have 1: "state (fst (world_of (deliver (0, 7) default_hooks
      [Remote_changed, Remote_changed, Remote_changed] (init (0, 7) ''link'' (), []))))
     = STATE_ABANDONED"
    using t[THEN conjunct2, THEN conjunct2, THEN conjunct2, THEN conjunct2, THEN conjunct1]
    unfolding i by (simp add: eval_defs)
  have 2: "hook_lines (snd (world_of (deliver (0, 7) default_hooks
      [Remote_changed, Remote_changed, Remote_changed] (init (0, 7) ''link'' (), []))))
     = [log_requested]"
    using t[THEN conjunct2, THEN conjunct2, THEN conjunct2, THEN conjunct2, THEN conjunct2,
            THEN conjunct1]
    unfolding i by (simp add: eval_defs) (simp add: line_defs)
  have 3: "process_remote_state (0, 7) default_hooks (exhausted_link, [])
       = Returned (exhausted_link, [log_ignored_remote ''link''])"
    using t[THEN conjunct2, THEN conjunct2, THEN conjunct2, THEN conjunct2, THEN conjunct2,
            THEN conjunct2, THEN conjunct1, THEN mp, OF x]
    by (simp add: exhausted_link_def)
  from 1 2 3 show ?thesis by blast
qed

end
